theory Spec2Isabelle
  imports Complex_Main "HOL-Library.Log_Nat"
begin

section \<open>Python numbers\<close>

text \<open>
  The program computes with Python 3 integers (unbounded, modelled by \<open>int\<close>) and Python
  floats (IEEE 754 binary64). A float is modelled by the rational number it denotes, and
  every float operation rounds its exact result to the nearest number with a 53-bit
  significand, ties going to the even significand, as the hardware does. The exponent
  is not bounded below: subnormal numbers are not modelled. It is not bounded above
  either, and a rounded result of magnitude \<open>2^1024\<close> or more, which binary64 cannot
  hold, stands for the infinity that the operation yields there (\<open>float_inf\<close>): the
  program multiplies such a value only by odds of at least 1, which leaves it infinite,
  and then hands it to \<open>round\<close>, which raises OverflowError on an infinity.
\<close>

datatype error = ZeroDivisionError | ValueError | OverflowError | NotFound

datatype number = PyInt int | PyFloat rat

text \<open>\<open>float_exp x\<close> is the binary exponent of a positive \<open>x\<close>: \<open>2^e \<le> x < 2^(e+1)\<close>.\<close>

definition float_exp :: "rat \<Rightarrow> int" where
  "float_exp x = (let (p, q) = quotient_of x; k = bitlen p - bitlen q
                  in if 2 powi k \<le> x then k else k - 1)"

text \<open>
  Python's \<open>round(x)\<close> on a float, with one argument: the nearest integer, an exact half
  going to the even neighbour.
\<close>

definition py_round :: "rat \<Rightarrow> int" where
  "py_round x = (let f = \<lfloor>x\<rfloor>; r = x - of_int f
       in if r < 1 / 2 then f else if 1 / 2 < r then f + 1 else if even f then f else f + 1)"

text \<open>Rounding of an exact result to binary64.\<close>

definition fl :: "rat \<Rightarrow> rat" where
  "fl x = (if x = 0 then 0 else
     let ulp = 2 powi (float_exp \<bar>x\<bar> - 52)
     in sgn x * of_int (py_round (\<bar>x\<bar> / ulp)) * ulp)"

text \<open>Conversion of an integer operand in mixed arithmetic, and \<open>int(x)\<close> on a float.\<close>

definition float_of_int :: "int \<Rightarrow> rat" where
  "float_of_int n = fl (of_int n)"

definition py_int :: "rat \<Rightarrow> int" where
  "py_int x = (if 0 \<le> x then \<lfloor>x\<rfloor> else \<lceil>x\<rceil>)"

definition float_add :: "rat \<Rightarrow> rat \<Rightarrow> rat" where
  "float_add x y = fl (x + y)"

definition float_sub :: "rat \<Rightarrow> rat \<Rightarrow> rat" where
  "float_sub x y = fl (x - y)"

definition float_mul :: "rat \<Rightarrow> rat \<Rightarrow> rat" where
  "float_mul x y = fl (x * y)"

text \<open>
  The values that are infinite in binary64: the largest binary exponent of a finite
  number is 1023.
\<close>

definition float_inf :: "rat \<Rightarrow> bool" where
  "float_inf x = (x \<noteq> 0 \<and> 1023 < float_exp \<bar>x\<bar>)"

text \<open>\<open>/\<close> on two floats, and on two integers (true division): both raise on a zero divisor.\<close>

definition float_truediv :: "rat \<Rightarrow> rat \<Rightarrow> error + rat" where
  "float_truediv x y = (if y = 0 then Inl ZeroDivisionError else Inr (fl (x / y)))"

definition int_truediv :: "int \<Rightarrow> int \<Rightarrow> error + rat" where
  "int_truediv a b = (if b = 0 then Inl ZeroDivisionError else Inr (fl (of_int a / of_int b)))"

section \<open>services/odds.py\<close>

definition american_to_decimal :: "int \<Rightarrow> error + rat" where
  "american_to_decimal american_odds =
     (if american_odds > 0 then
        (case int_truediv american_odds 100 of
           Inl e \<Rightarrow> Inl e
         | Inr q \<Rightarrow> Inr (float_add 1 q))
      else
        (case int_truediv 100 \<bar>american_odds\<bar> of
           Inl e \<Rightarrow> Inl e
         | Inr q \<Rightarrow> Inr (float_add 1 q)))"

definition decimal_to_american :: "rat \<Rightarrow> error + int" where
  "decimal_to_american decimal_odds =
     (if decimal_odds \<ge> 2 then
        Inr (py_int (float_mul (float_sub decimal_odds 1) 100))
      else
        (case float_truediv (- 100) (float_sub decimal_odds 1) of
           Inl e \<Rightarrow> Inl e
         | Inr q \<Rightarrow> Inr (py_int q)))"

text \<open>
  \<open>round(stake_cents * decimal_odds)\<close>. The integer operand is converted to a float, which
  raises OverflowError when it is too large for one; zero times an infinity is NaN, on
  which \<open>round\<close> raises ValueError; and \<open>round\<close> raises OverflowError on an infinite
  product.
\<close>

definition calculate_parlay_payout :: "int \<Rightarrow> rat \<Rightarrow> error + int" where
  "calculate_parlay_payout stake_cents decimal_odds =
     (if float_inf (float_of_int stake_cents) then Inl OverflowError
      else if stake_cents = 0 \<and> float_inf decimal_odds then Inl ValueError
      else
        let payout = float_mul (float_of_int stake_cents) decimal_odds
        in if float_inf payout then Inl OverflowError else Inr (py_round payout))"

section \<open>models.py\<close>

text \<open>
  The tables of the application. A column keeps its name, behind a prefix for its table
  (\<open>b_\<close> Bet, \<open>l_\<close> BetLeg, \<open>bp_\<close> BetParticipant, \<open>s_\<close> Settlement, \<open>p_\<close> Person). The
  surrogate keys of BetParticipant and Settlement are never read and are left out:
  a row is identified by its position in the table. A point in time is a clock reading.
\<close>

datatype BetStatus = OPEN | WON | LOST | VOID | CASHED_OUT

datatype LegResult = PENDING | WON | LOST | VOID

record Person =
  p_id :: int
  p_name :: string

record Bet =
  b_id :: int
  b_stake_cents :: int
  b_status :: BetStatus
  b_placed_at :: nat
  b_settled_at :: "nat option"

record BetLeg =
  l_id :: int
  l_bet_id :: int
  l_matchup :: string
  l_bet_description :: string
  l_american_odds :: int
  l_result :: LegResult

record Settlement =
  s_bet_id :: int
  s_person_id :: int
  s_net_cents :: number
  s_ts :: nat

record BetParticipant =
  bp_bet_id :: int
  bp_person_id :: int
  bp_stake_cents :: int

record database =
  persons :: "Person list"
  bets :: "Bet list"
  bet_legs :: "BetLeg list"
  bet_participants :: "BetParticipant list"
  settlements :: "Settlement list"

section \<open>app.py: settle\_bet\<close>

text \<open>
  The submitted form maps the id of a leg to the text of the field \<open>leg_<id>_result\<close>,
  \<open>None\<close> when the field is absent. The loop of lines 245 to 255 is \<open>update_leg\<close>,
  applied to each leg of the bet.
\<close>

type_synonym settle_form = "int \<Rightarrow> string option"

definition update_leg :: "settle_form \<Rightarrow> BetLeg \<Rightarrow> BetLeg" where
  "update_leg form leg =
     (case form (l_id leg) of
        None \<Rightarrow> leg
      | Some result \<Rightarrow>
          if result \<noteq> [] \<and> result \<noteq> ''pending'' then
            (if result = ''won'' then leg\<lparr>l_result := LegResult.WON\<rparr>
             else if result = ''lost'' then leg\<lparr>l_result := LegResult.LOST\<rparr>
             else if result = ''void'' then leg\<lparr>l_result := LegResult.VOID\<rparr>
             else leg)
          else leg)"

text \<open>Lines 286 to 289: the running product over the legs, started at \<open>1.0\<close>.\<close>

fun combined_odds :: "rat \<Rightarrow> BetLeg list \<Rightarrow> error + rat" where
  "combined_odds decimal_odds [] = Inr decimal_odds"
| "combined_odds decimal_odds (leg # legs) =
     (if l_result leg = LegResult.WON then
        (case american_to_decimal (l_american_odds leg) of
           Inl e \<Rightarrow> Inl e
         | Inr d \<Rightarrow> combined_odds (float_mul decimal_odds d) legs)
      else combined_odds decimal_odds legs)"

text \<open>Lines 267 to 274: every participant loses the stake.\<close>

definition lost_settlements :: "int \<Rightarrow> nat \<Rightarrow> BetParticipant list \<Rightarrow> Settlement list" where
  "lost_settlements bet_id now participants =
     map (\<lambda>participant.
            \<lparr>s_bet_id = bet_id, s_person_id = bp_person_id participant,
             s_net_cents = PyInt (- bp_stake_cents participant), s_ts = now\<rparr>)
         participants"

text \<open>Lines 296 to 307: the payout is shared in proportion to the stakes.\<close>

fun won_settlements ::
  "int \<Rightarrow> nat \<Rightarrow> int \<Rightarrow> int \<Rightarrow> BetParticipant list \<Rightarrow> error + Settlement list" where
  "won_settlements bet_id now total_stake total_payout [] = Inr []"
| "won_settlements bet_id now total_stake total_payout (participant # participants) =
     (case int_truediv (bp_stake_cents participant) total_stake of
        Inl e \<Rightarrow> Inl e
      | Inr q \<Rightarrow>
          let participant_share = float_mul q (float_of_int total_payout);
              net_cents = float_sub participant_share (float_of_int (bp_stake_cents participant))
          in (case won_settlements bet_id now total_stake total_payout participants of
                Inl e \<Rightarrow> Inl e
              | Inr rows \<Rightarrow>
                  Inr (\<lparr>s_bet_id = bet_id, s_person_id = bp_person_id participant,
                        s_net_cents = PyFloat net_cents, s_ts = now\<rparr> # rows)))"

text \<open>
  Lines 259 to 315: the new status of the bet and the Settlement rows to add, from the
  legs as updated and the participants.
\<close>

definition business_rules ::
  "int \<Rightarrow> nat \<Rightarrow> BetLeg list \<Rightarrow> BetParticipant list \<Rightarrow> error + (BetStatus \<times> Settlement list)" where
  "business_rules bet_id now legs participants =
     (let has_lost = list_ex (\<lambda>leg. l_result leg = LegResult.LOST) legs in
      if has_lost then Inr (BetStatus.LOST, lost_settlements bet_id now participants)
      else
        let has_pending = list_ex (\<lambda>leg. l_result leg = LegResult.PENDING) legs in
        if has_pending then Inr (BetStatus.OPEN, [])
        else
          let all_winning =
                list_all (\<lambda>leg. l_result leg \<in> set [LegResult.WON, LegResult.VOID]) legs in
          if all_winning then
            (case combined_odds 1 legs of
               Inl e \<Rightarrow> Inl e
             | Inr decimal_odds \<Rightarrow>
                 let total_stake = sum_list (map bp_stake_cents participants)
                 in (case calculate_parlay_payout total_stake decimal_odds of
                       Inl e \<Rightarrow> Inl e
                     | Inr total_payout \<Rightarrow>
                         (case won_settlements bet_id now total_stake total_payout participants of
                            Inl e \<Rightarrow> Inl e
                          | Inr rows \<Rightarrow> Inr (BetStatus.WON, rows))))
          else
            let all_void = list_all (\<lambda>leg. l_result leg = LegResult.VOID) legs in
            if all_void then Inr (BetStatus.VOID, []) else Inr (BetStatus.OPEN, []))"

text \<open>
  The request handler. An unknown bet answers 404; an exception aborts the request before
  the commit, so nothing is stored. \<open>now\<close> is the reading of the clock.
\<close>

definition settle_bet :: "int \<Rightarrow> settle_form \<Rightarrow> nat \<Rightarrow> database \<Rightarrow> error + database" where
  "settle_bet bet_id form now db =
     (case find (\<lambda>bet. b_id bet = bet_id) (bets db) of
        None \<Rightarrow> Inl NotFound
      | Some bet \<Rightarrow>
          let legs = map (update_leg form) (filter (\<lambda>leg. l_bet_id leg = bet_id) (bet_legs db));
              participants = filter (\<lambda>p. bp_bet_id p = bet_id) (bet_participants db)
          in (case business_rules bet_id now legs participants of
                Inl e \<Rightarrow> Inl e
              | Inr (status, rows) \<Rightarrow>
                  Inr (db\<lparr>bet_legs :=
                             map (\<lambda>leg. if l_bet_id leg = bet_id then update_leg form leg else leg)
                                 (bet_legs db),
                          bets :=
                             map (\<lambda>b. if b_id b = bet_id
                                       then b\<lparr>b_status := status,
                                              b_settled_at :=
                                                (if status \<noteq> BetStatus.OPEN then Some now
                                                 else b_settled_at b)\<rparr>
                                       else b)
                                 (bets db),
                          settlements := settlements db @ rows\<rparr>)))"

section \<open>app.py: new\_bet\<close>

text \<open>
  A field of the submitted form, as the conversion applied to it finds it: \<open>Blank\<close> when
  the field is absent or empty (a stake that is absent defaults to the text \<open>0\<close> and is
  skipped like an empty one), \<open>Malformed\<close> when \<open>int\<close> or \<open>float\<close> rejects the text with
  ValueError, \<open>Parsed v\<close> when the text converts to \<open>v\<close>. A stake converts to a finite
  float. The texts of a leg's matchup and description are empty when absent.
\<close>

datatype 'a field = Blank | Malformed | Parsed 'a

record leg_fields =
  lf_matchup :: string
  lf_bet :: string
  lf_odds :: "int field"

record bet_form =
  f_legs :: "leg_fields list"
  f_stakes :: "int \<Rightarrow> rat field"

text \<open>The request ends by a redirect with an error message, or by the commit of the new rows.\<close>

datatype outcome = Rejected string | Created database

text \<open>Lines 119 to 128: the legs that carry all three fields.\<close>

fun gather_legs :: "leg_fields list \<Rightarrow> error + (string \<times> string \<times> int) list" where
  "gather_legs [] = Inr []"
| "gather_legs (f # fs) =
     (if lf_matchup f \<noteq> [] \<and> lf_bet f \<noteq> [] \<and> lf_odds f \<noteq> Blank then
        (case lf_odds f of
           Parsed american_odds \<Rightarrow>
             (case gather_legs fs of
                Inl e \<Rightarrow> Inl e
              | Inr legs_data \<Rightarrow> Inr ((lf_matchup f, lf_bet f, american_odds) # legs_data))
         | _ \<Rightarrow> Inl ValueError)
      else gather_legs fs)"

text \<open>Lines 139 to 147: a person takes part when the stake entered is above zero.\<close>

fun gather_participants :: "(int \<Rightarrow> rat field) \<Rightarrow> Person list \<Rightarrow> error + (int \<times> int) list" where
  "gather_participants stakes [] = Inr []"
| "gather_participants stakes (person # rest) =
     (case stakes (p_id person) of
        Blank \<Rightarrow> gather_participants stakes rest
      | Malformed \<Rightarrow> Inl ValueError
      | Parsed stake \<Rightarrow>
          if stake > 0 then
            (let stake_cents = py_int (float_mul stake 100) in
             case gather_participants stakes rest of
               Inl e \<Rightarrow> Inl e
             | Inr participants_data \<Rightarrow> Inr ((p_id person, stake_cents) # participants_data))
          else gather_participants stakes rest)"

text \<open>The key the database gives the next row of a table: one above the largest in use.\<close>

definition next_id :: "int list \<Rightarrow> int" where
  "next_id ids = fold max ids 0 + 1"

definition new_bet :: "bet_form \<Rightarrow> nat \<Rightarrow> database \<Rightarrow> error + outcome" where
  "new_bet form now db =
     (case gather_legs (f_legs form) of
        Inl e \<Rightarrow> Inl e
      | Inr legs_data \<Rightarrow>
          if legs_data = [] then Inr (Rejected ''At least one bet leg is required'')
          else
            (case gather_participants (f_stakes form) (persons db) of
               Inl e \<Rightarrow> Inl e
             | Inr participants_data \<Rightarrow>
                 let total_stake = sum_list (map snd participants_data) in
                 if participants_data = [] then
                   Inr (Rejected ''At least one participant is required'')
                 else if total_stake = 0 then
                   Inr (Rejected ''Total stake must be greater than 0'')
                 else
                   let bet_id = next_id (map b_id (bets db));
                       leg_id = next_id (map l_id (bet_legs db))
                   in Inr (Created (db\<lparr>
                        bets := bets db @
                          [\<lparr>b_id = bet_id, b_stake_cents = total_stake,
                            b_status = BetStatus.OPEN, b_placed_at = now,
                            b_settled_at = None\<rparr>],
                        bet_participants := bet_participants db @
                          map (\<lambda>(person_id, stake_cents).
                                 \<lparr>bp_bet_id = bet_id, bp_person_id = person_id,
                                  bp_stake_cents = stake_cents\<rparr>)
                              participants_data,
                        bet_legs := bet_legs db @
                          map (\<lambda>(i, matchup, bet_description, american_odds).
                                 \<lparr>l_id = leg_id + int i, l_bet_id = bet_id,
                                  l_matchup = matchup, l_bet_description = bet_description,
                                  l_american_odds = american_odds,
                                  l_result = LegResult.PENDING\<rparr>)
                              (enumerate 0 legs_data)\<rparr>))))"

section \<open>Example data\<close>

text \<open>
  A two-leg parlay at +150 and -200 with two participants staking 60.00 and 40.00, as
  the creation route stores it.
\<close>

definition db0 :: database where
  "db0 = \<lparr>persons = [\<lparr>p_id = 1, p_name = ''Ryan''\<rparr>, \<lparr>p_id = 2, p_name = ''Friend''\<rparr>],
          bets = [\<lparr>b_id = 1, b_stake_cents = 10000, b_status = BetStatus.OPEN,
                   b_placed_at = 0, b_settled_at = None\<rparr>],
          bet_legs = [\<lparr>l_id = 1, l_bet_id = 1, l_matchup = ''A v B'', l_bet_description = ''A'',
                       l_american_odds = 150, l_result = LegResult.PENDING\<rparr>,
                      \<lparr>l_id = 2, l_bet_id = 1, l_matchup = ''C v D'', l_bet_description = ''C'',
                       l_american_odds = - 200, l_result = LegResult.PENDING\<rparr>],
          bet_participants = [\<lparr>bp_bet_id = 1, bp_person_id = 1, bp_stake_cents = 6000\<rparr>,
                              \<lparr>bp_bet_id = 1, bp_person_id = 2, bp_stake_cents = 4000\<rparr>],
          settlements = []\<rparr>"

text \<open>The status stored for a bet, if the bet exists.\<close>

definition status_of :: "int \<Rightarrow> database \<Rightarrow> BetStatus option" where
  "status_of bet_id db = map_option b_status (find (\<lambda>bet. b_id bet = bet_id) (bets db))"

text \<open>The parlay after its first leg was reported won, the second still pending.\<close>

definition db1 :: database where
  "db1 = db0\<lparr>bet_legs :=
              [\<lparr>l_id = 1, l_bet_id = 1, l_matchup = ''A v B'', l_bet_description = ''A'',
                l_american_odds = 150, l_result = LegResult.WON\<rparr>,
               \<lparr>l_id = 2, l_bet_id = 1, l_matchup = ''C v D'', l_bet_description = ''C'',
                l_american_odds = - 200, l_result = LegResult.PENDING\<rparr>]\<rparr>"

text \<open>
  The parlay after its second leg was reported lost at time 5: the bet is LOST and both
  participants have their Settlement.
\<close>

definition db_lost :: database where
  "db_lost = db0\<lparr>bet_legs :=
              [\<lparr>l_id = 1, l_bet_id = 1, l_matchup = ''A v B'', l_bet_description = ''A'',
                l_american_odds = 150, l_result = LegResult.PENDING\<rparr>,
               \<lparr>l_id = 2, l_bet_id = 1, l_matchup = ''C v D'', l_bet_description = ''C'',
                l_american_odds = - 200, l_result = LegResult.LOST\<rparr>],
            bets := [\<lparr>b_id = 1, b_stake_cents = 10000, b_status = BetStatus.LOST,
                      b_placed_at = 0, b_settled_at = Some 5\<rparr>],
            settlements :=
              [\<lparr>s_bet_id = 1, s_person_id = 1, s_net_cents = PyInt (- 6000), s_ts = 5\<rparr>,
               \<lparr>s_bet_id = 1, s_person_id = 2, s_net_cents = PyInt (- 4000), s_ts = 5\<rparr>]\<rparr>"

text \<open>
  A single bet at +150 on which two participants stake one cent each, and a bet without
  legs (storage allows it) on which they stake 1 and 48 cents.
\<close>

definition db_even :: database where
  "db_even = \<lparr>persons = [\<lparr>p_id = 1, p_name = ''Ryan''\<rparr>, \<lparr>p_id = 2, p_name = ''Friend''\<rparr>],
          bets = [\<lparr>b_id = 1, b_stake_cents = 2, b_status = BetStatus.OPEN,
                   b_placed_at = 0, b_settled_at = None\<rparr>],
          bet_legs = [\<lparr>l_id = 1, l_bet_id = 1, l_matchup = ''A v B'', l_bet_description = ''A'',
                       l_american_odds = 150, l_result = LegResult.PENDING\<rparr>],
          bet_participants = [\<lparr>bp_bet_id = 1, bp_person_id = 1, bp_stake_cents = 1\<rparr>,
                              \<lparr>bp_bet_id = 1, bp_person_id = 2, bp_stake_cents = 1\<rparr>],
          settlements = []\<rparr>"

definition db_no_legs :: database where
  "db_no_legs = \<lparr>persons = [\<lparr>p_id = 1, p_name = ''Ryan''\<rparr>, \<lparr>p_id = 2, p_name = ''Friend''\<rparr>],
          bets = [\<lparr>b_id = 1, b_stake_cents = 49, b_status = BetStatus.OPEN,
                   b_placed_at = 0, b_settled_at = None\<rparr>],
          bet_legs = [],
          bet_participants = [\<lparr>bp_bet_id = 1, bp_person_id = 1, bp_stake_cents = 1\<rparr>,
                              \<lparr>bp_bet_id = 1, bp_person_id = 2, bp_stake_cents = 48\<rparr>],
          settlements = []\<rparr>"

text \<open>
  The rounding rule the specification names for the payout, "round half away from zero",
  to compare with what \<open>round\<close> does.
\<close>

definition round_half_away_from_zero :: "rat \<Rightarrow> int" where
  "round_half_away_from_zero x = (if 0 \<le> x then \<lfloor>x + 1 / 2\<rfloor> else \<lceil>x - 1 / 2\<rceil>)"

text \<open>
  The database as seeded, and a request for one leg at +150 in which the first person
  enters a stake of 0.001 (a tenth of a cent) and the second a stake of 5.
\<close>

definition db_seeded :: database where
  "db_seeded = \<lparr>persons = [\<lparr>p_id = 1, p_name = ''Ryan''\<rparr>, \<lparr>p_id = 2, p_name = ''Friend''\<rparr>],
                bets = [], bet_legs = [], bet_participants = [], settlements = []\<rparr>"

definition form_sub_cent :: bet_form where
  "form_sub_cent =
     \<lparr>f_legs = [\<lparr>lf_matchup = ''A v B'', lf_bet = ''A'', lf_odds = Parsed 150\<rparr>],
      f_stakes = (\<lambda>person_id. if person_id = 1 then Parsed (fl (1 / 1000))
                               else if person_id = 2 then Parsed 5 else Blank)\<rparr>"

section \<open>Rounding to binary64\<close>

lemma two_powi_nat: "0 \<le> k \<Longrightarrow> (2::rat) powi k = 2 ^ nat k"
  by (simp add: power_int_def)

lemma two_powi_pos: "0 < (2::rat) powi k"
  by (simp add: zero_less_power_int)

lemma two_powi_Suc: "(2::rat) powi (k + 1) = 2 * 2 powi k"
  by (simp add: power_int_add)

lemma two_powi_diff: "(2::rat) powi (a - b) = 2 powi a / 2 powi b"
  by (simp add: power_int_diff)

lemma float_exp_bounds:
  assumes "0 < x"
  shows "2 powi float_exp x \<le> x \<and> x < 2 powi (float_exp x + 1)"
proof -
  obtain p q where pq: "quotient_of x = (p, q)" by (cases "quotient_of x")
  have q: "0 < q" using pq quotient_of_denom_pos by blast
  have x: "x = of_int p / of_int q" using pq quotient_of_div by blast
  have p: "0 < p" using assms q x by (simp add: zero_less_divide_iff)
  define bp where "bp = bitlen p"
  define bq where "bq = bitlen q"
  have bp1: "1 \<le> bp" using p by (simp add: bp_def bitlen_alt_def)
  have bq1: "1 \<le> bq" using q by (simp add: bq_def bitlen_alt_def)
  have P: "2 ^ nat (bp - 1) \<le> p" "p < 2 ^ nat bp"
    using bitlen_bounds[OF p] by (simp_all add: bp_def)
  have Q: "2 ^ nat (bq - 1) \<le> q" "q < 2 ^ nat bq"
    using bitlen_bounds[OF q] by (simp_all add: bq_def)
  have Pr: "(2::rat) powi (bp - 1) \<le> of_int p" "of_int p < (2::rat) powi bp"
  proof -
    have "(of_int (2 ^ nat (bp - 1)) :: rat) \<le> of_int p" using P(1) by (simp only: of_int_le_iff)
    then show "(2::rat) powi (bp - 1) \<le> of_int p" using bp1 by (simp add: two_powi_nat)
    have "(of_int p :: rat) < of_int (2 ^ nat bp)" using P(2) by (simp only: of_int_less_iff)
    then show "of_int p < (2::rat) powi bp" using bp1 by (simp add: two_powi_nat)
  qed
  have Qr: "(2::rat) powi (bq - 1) \<le> of_int q" "of_int q < (2::rat) powi bq"
  proof -
    have "(of_int (2 ^ nat (bq - 1)) :: rat) \<le> of_int q" using Q(1) by (simp only: of_int_le_iff)
    then show "(2::rat) powi (bq - 1) \<le> of_int q" using bq1 by (simp add: two_powi_nat)
    have "(of_int q :: rat) < of_int (2 ^ nat bq)" using Q(2) by (simp only: of_int_less_iff)
    then show "of_int q < (2::rat) powi bq" using bq1 by (simp add: two_powi_nat)
  qed
  define k where "k = bp - bq"
  have qpos: "(0::rat) < of_int q" using q by simp
  have up: "x < 2 powi (k + 1)"
  proof -
    have "of_int p < (2::rat) powi bp" by (rule Pr(2))
    also have "\<dots> = 2 powi (k + 1) * 2 powi (bq - 1)"
      by (simp add: k_def power_int_add[symmetric])
    also have "\<dots> \<le> 2 powi (k + 1) * of_int q"
      using Qr(1) two_powi_pos[of "k + 1"] by (simp add: mult_left_mono)
    finally show ?thesis using qpos by (simp add: x pos_divide_less_eq)
  qed
  have lo: "2 powi (k - 1) \<le> x"
  proof -
    have "2 powi (k - 1) * of_int q \<le> (2::rat) powi (k - 1) * 2 powi bq"
      using Qr(2) two_powi_pos[of "k - 1"] by (simp add: mult_left_mono)
    also have "\<dots> = 2 powi (bp - 1)"
      by (simp add: k_def power_int_add[symmetric])
    also have "\<dots> \<le> of_int p" by (rule Pr(1))
    finally show ?thesis using qpos by (simp add: x pos_le_divide_eq)
  qed
  have fe: "float_exp x = (if 2 powi k \<le> x then k else k - 1)"
    by (simp add: float_exp_def pq k_def bp_def bq_def)
  show ?thesis
  proof (cases "2 powi k \<le> x")
    case True
    then show ?thesis using up fe by simp
  next
    case False
    then show ?thesis using lo fe by simp
  qed
qed

lemma py_round_error: "\<bar>of_int (py_round x) - x\<bar> \<le> 1 / 2"
proof -
  have "of_int \<lfloor>x\<rfloor> \<le> x" "x < of_int \<lfloor>x\<rfloor> + 1" by linarith+
  then show ?thesis
    by (auto simp: py_round_def Let_def)
qed

lemma py_round_ge: "of_int n \<le> x \<Longrightarrow> n \<le> py_round x"
proof -
  assume "of_int n \<le> x"
  then have "n \<le> \<lfloor>x\<rfloor>" by (simp add: le_floor_iff)
  then show ?thesis by (auto simp: py_round_def Let_def)
qed

lemma py_round_of_int: "py_round (of_int n) = n"
  by (simp add: py_round_def)

lemma fl_error_pos:
  assumes "0 < x"
  shows "\<bar>fl x - x\<bar> \<le> 2 powi (float_exp x - 53)"
proof -
  define u where "u = (2::rat) powi (float_exp x - 52)"
  have u: "0 < u" by (simp add: u_def two_powi_pos)
  define m where "m = py_round (x / u)"
  have flx: "fl x = of_int m * u"
    using assms by (simp add: fl_def u_def m_def Let_def)
  have "\<bar>of_int m - x / u\<bar> \<le> 1 / 2" unfolding m_def by (rule py_round_error)
  then have "\<bar>of_int m - x / u\<bar> * u \<le> 1 / 2 * u" using u by (simp add: mult_right_mono)
  moreover have "\<bar>of_int m - x / u\<bar> * u = \<bar>of_int m * u - x\<bar>"
  proof -
    have "\<bar>of_int m - x / u\<bar> * u = \<bar>(of_int m - x / u) * u\<bar>" using u by (simp add: abs_mult)
    also have "(of_int m - x / u) * u = of_int m * u - x" using u by (simp add: algebra_simps)
    finally show ?thesis .
  qed
  moreover have "1 / 2 * u = 2 powi (float_exp x - 53)"
  proof -
    have "float_exp x - 52 = (float_exp x - 53) + 1" by simp
    then have "u = 2 * 2 powi (float_exp x - 53)" unfolding u_def by (simp only: two_powi_Suc)
    then show ?thesis by simp
  qed
  ultimately show ?thesis by (simp add: flx)
qed

lemma fl_minus: "fl (- x) = - fl x"
  by (simp add: fl_def Let_def)

lemma fl_rel_error: "\<bar>fl x - x\<bar> \<le> \<bar>x\<bar> / 2 ^ 53"
proof -
  have pos: "\<bar>fl y - y\<bar> \<le> \<bar>y\<bar> / 2 ^ 53" if "0 < y" for y
  proof -
    have "\<bar>fl y - y\<bar> \<le> 2 powi (float_exp y - 53)" by (rule fl_error_pos[OF that])
    also have "\<dots> = 2 powi float_exp y / 2 ^ 53" by (simp add: two_powi_diff)
    also have "\<dots> \<le> y / 2 ^ 53" using float_exp_bounds[OF that] by (simp add: divide_right_mono)
    finally show ?thesis using that by simp
  qed
  consider "x = 0" | "0 < x" | "x < 0" by linarith
  then show ?thesis
  proof cases
    case 1 then show ?thesis by (simp add: fl_def)
  next
    case 2 then show ?thesis by (rule pos)
  next
    case 3
    then have "\<bar>fl (- x) - (- x)\<bar> \<le> \<bar>- x\<bar> / 2 ^ 53" by (intro pos) simp
    then show ?thesis by (simp add: fl_minus abs_minus_commute)
  qed
qed

lemma fl_eq_0_iff: "fl x = 0 \<longleftrightarrow> x = 0"
proof
  assume z: "fl x = 0"
  show "x = 0"
  proof (rule ccontr)
    assume nz: "x \<noteq> 0"
    have "\<bar>x\<bar> \<le> \<bar>x\<bar> / 2 ^ 53" using fl_rel_error[of x] z by simp
    moreover have "\<bar>x\<bar> / 2 ^ 53 < \<bar>x\<bar>" using nz by simp
    ultimately show False by linarith
  qed
next
  assume "x = 0" then show "fl x = 0" by (simp add: fl_def)
qed

lemma fl_ge_two_powi:
  assumes "2 powi k \<le> x"
  shows "2 powi k \<le> fl x"
proof -
  have xpos: "0 < x" using assms two_powi_pos[of k] by linarith
  define e where "e = float_exp x"
  have b: "2 powi e \<le> x" "x < 2 powi (e + 1)" using float_exp_bounds[OF xpos] by (simp_all add: e_def)
  have "(2::rat) powi k < 2 powi (e + 1)" using assms b(2) by linarith
  have ke: "k \<le> e"
  proof (rule ccontr)
    assume "\<not> k \<le> e"
    then have "e + 1 \<le> k" by simp
    then have "(2::rat) powi (e + 1) \<le> 2 powi k" by (simp add: power_int_increasing)
    then show False using \<open>(2::rat) powi k < 2 powi (e + 1)\<close> by linarith
  qed
  define u where "u = (2::rat) powi (e - 52)"
  have u: "0 < u" by (simp add: u_def two_powi_pos)
  have flx: "fl x = of_int (py_round (x / u)) * u"
    using xpos by (simp add: fl_def u_def e_def Let_def)
  have "2 powi e / u = (2::rat) powi 52" by (simp add: u_def power_int_diff)
  then have "2 powi e / u = of_int (2 ^ 52)" by (simp add: power_int_def)
  moreover have "2 powi e / u \<le> x / u" using b(1) u by (simp add: divide_right_mono)
  ultimately have "of_int (2 ^ 52) \<le> x / u" by simp
  then have "2 ^ 52 \<le> py_round (x / u)" by (rule py_round_ge)
  then have "(of_int (2 ^ 52) :: rat) \<le> of_int (py_round (x / u))" by (simp only: of_int_le_iff)
  then have "of_int (2 ^ 52) * u \<le> fl x" using u by (simp add: flx mult_right_mono)
  moreover have "of_int (2 ^ 52) * u = (2::rat) powi e"
    by (simp add: u_def power_int_diff)
  moreover have "(2::rat) powi k \<le> 2 powi e" using ke by (simp add: power_int_increasing)
  ultimately show ?thesis by linarith
qed

lemma float_inf_iff: "float_inf x \<longleftrightarrow> 2 ^ 1024 \<le> \<bar>x\<bar>"
proof (cases "x = 0")
  case True
  then show ?thesis by (simp add: float_inf_def)
next
  case False
  then have pos: "0 < \<bar>x\<bar>" by simp
  define e where "e = float_exp \<bar>x\<bar>"
  have b: "2 powi e \<le> \<bar>x\<bar>" "\<bar>x\<bar> < 2 powi (e + 1)"
    using float_exp_bounds[OF pos] by (simp_all add: e_def)
  have p: "(2::rat) powi 1024 = 2 ^ 1024" by (simp add: power_int_def)
  show ?thesis
  proof
    assume "float_inf x"
    then have "1024 \<le> e" by (simp add: float_inf_def e_def)
    then have "(2::rat) powi 1024 \<le> 2 powi e" by (intro power_int_increasing) simp_all
    with b(1) show "2 ^ 1024 \<le> \<bar>x\<bar>" unfolding p by linarith
  next
    assume "2 ^ 1024 \<le> \<bar>x\<bar>"
    with b(2) have lt: "(2::rat) powi 1024 < 2 powi (e + 1)" unfolding p by linarith
    have "1024 \<le> e"
    proof (rule ccontr)
      assume "\<not> 1024 \<le> e"
      then have "e + 1 \<le> 1024" by simp
      then have "(2::rat) powi (e + 1) \<le> 2 powi 1024" by (intro power_int_increasing) simp_all
      with lt show False by linarith
    qed
    then show "float_inf x" using False by (simp add: float_inf_def e_def)
  qed
qed

section \<open>The settlement action\<close>

lemma find_update_bet:
  assumes "\<And>b. b_id (g b) = b_id b"
  shows "find (\<lambda>b. b_id b = i) (map (\<lambda>b. if b_id b = i then g b else b) bs)
         = map_option g (find (\<lambda>b. b_id b = i) bs)"
  using assms by (induction bs) auto

lemma business_rules_lost:
  "list_ex (\<lambda>leg. l_result leg = LegResult.LOST) legs \<Longrightarrow>
   business_rules bet_id now legs participants
     = Inr (BetStatus.LOST, lost_settlements bet_id now participants)"
  by (simp add: business_rules_def)


text \<open>
  C4. When, after the submitted updates are applied, any leg of the bet is LOST, the
  settlement action succeeds, sets the bet to LOST with \<open>settled_at\<close> the time of the
  action, and appends exactly one Settlement per participant, in order, with
  \<open>net_cents = - stake_cents\<close>. Nothing is assumed about the other legs or about the
  odds: no payout is computed on this path.
\<close>

theorem settle_bet_any_leg_lost:
  assumes found: "find (\<lambda>bet. b_id bet = bet_id) (bets db) = Some bet"
    and lost: "\<exists>leg \<in> set (bet_legs db).
                 l_bet_id leg = bet_id \<and> l_result (update_leg form leg) = LegResult.LOST"
  shows "\<exists>db'. settle_bet bet_id form now db = Inr db'
           \<and> find (\<lambda>bet. b_id bet = bet_id) (bets db')
               = Some (bet\<lparr>b_status := BetStatus.LOST, b_settled_at := Some now\<rparr>)
           \<and> settlements db'
               = settlements db
                 @ map (\<lambda>p. \<lparr>s_bet_id = bet_id, s_person_id = bp_person_id p,
                              s_net_cents = PyInt (- bp_stake_cents p), s_ts = now\<rparr>)
                       (filter (\<lambda>p. bp_bet_id p = bet_id) (bet_participants db))"
proof -
  have "list_ex (\<lambda>leg. l_result leg = LegResult.LOST)
          (map (update_leg form) (filter (\<lambda>leg. l_bet_id leg = bet_id) (bet_legs db)))"
    using lost by (auto simp: list_ex_iff)
  then have br: "business_rules bet_id now
          (map (update_leg form) (filter (\<lambda>leg. l_bet_id leg = bet_id) (bet_legs db)))
          (filter (\<lambda>p. bp_bet_id p = bet_id) (bet_participants db))
        = Inr (BetStatus.LOST,
               lost_settlements bet_id now (filter (\<lambda>p. bp_bet_id p = bet_id) (bet_participants db)))"
    by (rule business_rules_lost)
  show ?thesis
    using found
    by (simp add: settle_bet_def br find_update_bet lost_settlements_def)
qed


theorem settle_bet_any_leg_lost_witness:
  "find (\<lambda>bet. b_id bet = 1) (bets db0) = Some (hd (bets db0))
   \<and> (\<exists>leg \<in> set (bet_legs db0).
          l_bet_id leg = 1 \<and> l_result (update_leg [2 \<mapsto> ''lost''] leg) = LegResult.LOST)
   \<and> (\<exists>db'. settle_bet 1 [2 \<mapsto> ''lost''] 5 db0 = Inr db'
          \<and> map b_status (bets db') = [BetStatus.LOST]
          \<and> map s_net_cents (settlements db') = [PyInt (- 6000), PyInt (- 4000)])"
proof -
  have h1: "find (\<lambda>bet. b_id bet = 1) (bets db0) = Some (hd (bets db0))"
    by (simp add: db0_def)
  have h2: "\<exists>leg \<in> set (bet_legs db0).
          l_bet_id leg = 1 \<and> l_result (update_leg [2 \<mapsto> ''lost''] leg) = LegResult.LOST"
    by (simp add: db0_def update_leg_def)
  obtain db' where r: "settle_bet 1 [2 \<mapsto> ''lost''] 5 db0 = Inr db'"
      "settlements db' = settlements db0
                 @ map (\<lambda>p. \<lparr>s_bet_id = 1, s_person_id = bp_person_id p,
                              s_net_cents = PyInt (- bp_stake_cents p), s_ts = 5\<rparr>)
                       (filter (\<lambda>p. bp_bet_id p = 1) (bet_participants db0))"
    using settle_bet_any_leg_lost[OF h1 h2, of 5] by blast
  have s: "map s_net_cents (settlements db') = [PyInt (- 6000), PyInt (- 4000)]"
    by (simp add: r(2) db0_def)
  have b: "map b_status (bets db') = [BetStatus.LOST]"
    using r(1) by (auto simp: settle_bet_def db0_def business_rules_def update_leg_def
          lost_settlements_def)
  have "\<exists>db'. settle_bet 1 [2 \<mapsto> ''lost''] 5 db0 = Inr db'
          \<and> map b_status (bets db') = [BetStatus.LOST]
          \<and> map s_net_cents (settlements db') = [PyInt (- 6000), PyInt (- 4000)]"
    using r(1) s b by simp
  with h1 h2 show ?thesis by (intro conjI)
qed




lemma update_leg_bet_id [simp]: "l_bet_id (update_leg form leg) = l_bet_id leg"
  by (simp add: update_leg_def split: option.splits)

lemma update_leg_id [simp]: "l_id (update_leg form leg) = l_id leg"
  by (simp add: update_leg_def split: option.splits)

lemma update_leg_empty [simp]: "update_leg Map.empty leg = leg"
  by (simp add: update_leg_def)

lemma update_leg_result:
  "update_leg form leg = leg\<lparr>l_result := l_result (update_leg form leg)\<rparr>"
  by (simp add: update_leg_def split: option.splits)

lemma update_leg_cases:
  "(form (l_id leg) = Some ''won'' \<longrightarrow> l_result (update_leg form leg) = LegResult.WON)
   \<and> (form (l_id leg) = Some ''lost'' \<longrightarrow> l_result (update_leg form leg) = LegResult.LOST)
   \<and> (form (l_id leg) = Some ''void'' \<longrightarrow> l_result (update_leg form leg) = LegResult.VOID)
   \<and> (form (l_id leg) \<notin> {Some ''won'', Some ''lost'', Some ''void''}
        \<longrightarrow> l_result (update_leg form leg) = l_result leg)"
  by (simp add: update_leg_def split: option.splits)

lemma settle_bet_legs:
  assumes "settle_bet bet_id form now db = Inr db'"
  shows "bet_legs db'
           = map (\<lambda>leg. if l_bet_id leg = bet_id then update_leg form leg else leg) (bet_legs db)"
  using assms
  by (auto simp: settle_bet_def split: option.splits sum.splits)

text \<open>
  C8, as the code has it. The settlement action does not look at a leg's current
  result: every leg of the bet whose field carries \<open>won\<close>, \<open>lost\<close> or \<open>void\<close> takes
  that result, whether it was PENDING or already WON, LOST or VOID. A leg of another bet,
  or a leg with no field, an empty field, \<open>pending\<close> or any other text, keeps its
  result. Nothing but the result of a leg changes.
\<close>

theorem settle_bet_overwrites_legs:
  assumes "settle_bet bet_id form now db = Inr db'"
    and "i < length (bet_legs db)"
    and "leg = bet_legs db ! i"
    and "leg' = bet_legs db' ! i"
  shows "length (bet_legs db') = length (bet_legs db)
     \<and> leg' = leg\<lparr>l_result := l_result leg'\<rparr>
     \<and> (l_bet_id leg = bet_id \<and> form (l_id leg) = Some ''won'' \<longrightarrow> l_result leg' = LegResult.WON)
     \<and> (l_bet_id leg = bet_id \<and> form (l_id leg) = Some ''lost'' \<longrightarrow> l_result leg' = LegResult.LOST)
     \<and> (l_bet_id leg = bet_id \<and> form (l_id leg) = Some ''void'' \<longrightarrow> l_result leg' = LegResult.VOID)
     \<and> (l_bet_id leg \<noteq> bet_id \<or> form (l_id leg) \<notin> {Some ''won'', Some ''lost'', Some ''void''}
          \<longrightarrow> l_result leg' = l_result leg)"
proof -
  have legs: "bet_legs db'
           = map (\<lambda>leg. if l_bet_id leg = bet_id then update_leg form leg else leg) (bet_legs db)"
    using assms(1) by (rule settle_bet_legs)
  have leg': "leg' = (if l_bet_id leg = bet_id then update_leg form leg else leg)"
    using assms(2-4) by (simp add: legs)
  show ?thesis
  proof (cases "l_bet_id leg = bet_id")
    case True
    then have "leg' = update_leg form leg" using leg' by simp
    then show ?thesis
      using update_leg_cases[of form leg] update_leg_result[of form leg] True
      by (simp add: legs)
  next
    case False
    then show ?thesis using leg' by (simp add: legs)
  qed
qed

theorem settle_bet_overwrites_legs_witness:
  "settle_bet 1 [1 \<mapsto> ''won''] 5 db0 = Inr db1
   \<and> l_result (bet_legs db0 ! 0) = LegResult.PENDING
   \<and> l_result (bet_legs db1 ! 0) = LegResult.WON"
proof -
  have s: "settle_bet 1 [1 \<mapsto> ''won''] 5 db0 = Inr db1"
    by (simp add: settle_bet_def business_rules_def update_leg_def db0_def db1_def)
  have i: "0 < length (bet_legs db0)" by (simp add: db0_def)
  have f: "l_bet_id (bet_legs db0 ! 0) = 1 \<and> [1 \<mapsto> ''won''] (l_id (bet_legs db0 ! 0)) = Some ''won''"
    by (simp add: db0_def)
  have "l_result (bet_legs db1 ! 0) = LegResult.WON"
    using settle_bet_overwrites_legs[OF s i refl refl] f by blast
  moreover have "l_result (bet_legs db0 ! 0) = LegResult.PENDING" by (simp add: db0_def)
  ultimately show ?thesis using s by simp
qed

text \<open>
  The claim C8 as stated fails: a leg that is already WON becomes LOST when \<open>lost\<close> is
  submitted for it.
\<close>

theorem settle_bet_terminal_leg_counterexample:
  "l_result (bet_legs db1 ! 0) = LegResult.WON
   \<and> map_sum id (\<lambda>db'. l_result (bet_legs db' ! 0)) (settle_bet 1 [1 \<mapsto> ''lost''] 6 db1)
       = Inr LegResult.LOST"
  by code_simp

lemma won_settlements_clock:
  "won_settlements bet_id t2 total_stake total_payout ps
     = map_sum id (map (\<lambda>s. s\<lparr>s_ts := t2\<rparr>))
         (won_settlements bet_id t1 total_stake total_payout ps)"
  by (induction ps) (auto simp: Let_def split: sum.splits)

lemma lost_settlements_clock:
  "lost_settlements bet_id t2 ps = map (\<lambda>s. s\<lparr>s_ts := t2\<rparr>) (lost_settlements bet_id t1 ps)"
  by (simp add: lost_settlements_def)

lemma business_rules_clock:
  assumes "business_rules bet_id t1 legs ps = Inr (status, rows)"
  shows "business_rules bet_id t2 legs ps = Inr (status, map (\<lambda>s. s\<lparr>s_ts := t2\<rparr>) rows)"
  using assms won_settlements_clock[of bet_id t2 _ _ ps t1]
  by (auto simp: business_rules_def Let_def lost_settlements_clock[of bet_id t2 ps t1]
           split: if_splits sum.splits)

lemma filter_updated_legs:
  "filter (\<lambda>leg. l_bet_id leg = bet_id)
      (map (\<lambda>leg. if l_bet_id leg = bet_id then update_leg form leg else leg) legs)
   = map (update_leg form) (filter (\<lambda>leg. l_bet_id leg = bet_id) legs)"
  by (induction legs) auto

lemma settle_bet_InrD:
  assumes "settle_bet bet_id form now db = Inr db'"
  obtains bet status rows where
    "find (\<lambda>bet. b_id bet = bet_id) (bets db) = Some bet"
    "business_rules bet_id now
        (map (update_leg form) (filter (\<lambda>leg. l_bet_id leg = bet_id) (bet_legs db)))
        (filter (\<lambda>p. bp_bet_id p = bet_id) (bet_participants db)) = Inr (status, rows)"
    "db' = db\<lparr>bet_legs :=
                 map (\<lambda>leg. if l_bet_id leg = bet_id then update_leg form leg else leg)
                     (bet_legs db),
               bets :=
                 map (\<lambda>b. if b_id b = bet_id
                           then b\<lparr>b_status := status,
                                  b_settled_at :=
                                    (if status \<noteq> BetStatus.OPEN then Some now
                                     else b_settled_at b)\<rparr>
                           else b)
                     (bets db),
               settlements := settlements db @ rows\<rparr>"
  using assms
  by (auto simp: settle_bet_def split: option.splits sum.splits)

text \<open>
  C3, as the code has it. The settlement action does not check the status of the bet.
  Invoked again after a successful settlement, with no result submitted, it succeeds
  again, leaves the legs and the status as they are, and appends once more the rows the
  first invocation appended (one per participant when the status is WON or LOST, none
  when it is OPEN), stamped with the new time.
\<close>

theorem settle_bet_again:
  assumes "settle_bet bet_id form t1 db = Inr db'"
  shows "\<exists>db''. settle_bet bet_id Map.empty t2 db' = Inr db''
          \<and> status_of bet_id db'' = status_of bet_id db'
          \<and> bet_legs db'' = bet_legs db'
          \<and> settlements db''
              = settlements db'
                @ map (\<lambda>s. s\<lparr>s_ts := t2\<rparr>) (drop (length (settlements db)) (settlements db'))"
proof -
  from assms obtain bet status rows where
    found: "find (\<lambda>bet. b_id bet = bet_id) (bets db) = Some bet"
    and br: "business_rules bet_id t1
        (map (update_leg form) (filter (\<lambda>leg. l_bet_id leg = bet_id) (bet_legs db)))
        (filter (\<lambda>p. bp_bet_id p = bet_id) (bet_participants db)) = Inr (status, rows)"
    and db'_eq: "db' = db\<lparr>bet_legs :=
                 map (\<lambda>leg. if l_bet_id leg = bet_id then update_leg form leg else leg)
                     (bet_legs db),
               bets :=
                 map (\<lambda>b. if b_id b = bet_id
                           then b\<lparr>b_status := status,
                                  b_settled_at :=
                                    (if status \<noteq> BetStatus.OPEN then Some t1
                                     else b_settled_at b)\<rparr>
                           else b)
                     (bets db),
               settlements := settlements db @ rows\<rparr>"
    by (rule settle_bet_InrD)
  define bet1 where "bet1 = bet\<lparr>b_status := status,
        b_settled_at := (if status \<noteq> BetStatus.OPEN then Some t1 else b_settled_at bet)\<rparr>"
  have found1: "find (\<lambda>bet. b_id bet = bet_id) (bets db') = Some bet1"
    using found by (simp add: db'_eq find_update_bet bet1_def)
  have legs1: "map (update_leg Map.empty) (filter (\<lambda>leg. l_bet_id leg = bet_id) (bet_legs db'))
        = map (update_leg form) (filter (\<lambda>leg. l_bet_id leg = bet_id) (bet_legs db))"
    by (simp add: db'_eq filter_updated_legs)
  have parts1: "bet_participants db' = bet_participants db" by (simp add: db'_eq)
  have br2: "business_rules bet_id t2
        (map (update_leg Map.empty) (filter (\<lambda>leg. l_bet_id leg = bet_id) (bet_legs db')))
        (filter (\<lambda>p. bp_bet_id p = bet_id) (bet_participants db'))
      = Inr (status, map (\<lambda>s. s\<lparr>s_ts := t2\<rparr>) rows)"
    unfolding legs1 parts1 using br by (rule business_rules_clock)
  have st1: "status_of bet_id db' = Some status"
    by (simp add: status_of_def found1 bet1_def)
  have rows: "drop (length (settlements db)) (settlements db') = rows"
    by (simp add: db'_eq)
  have same_legs: "map (\<lambda>leg. if l_bet_id leg = bet_id then update_leg Map.empty leg else leg)
                     (bet_legs db') = bet_legs db'"
    by (simp add: map_idI)
  show ?thesis
    unfolding rows st1
    using found1
    by (simp add: settle_bet_def br2 status_of_def find_update_bet same_legs)
qed

theorem settle_bet_again_witness:
  "settle_bet 1 [2 \<mapsto> ''lost''] 5 db0 = Inr db_lost
   \<and> status_of 1 db_lost = Some BetStatus.LOST
   \<and> (\<exists>db2. settle_bet 1 Map.empty 6 db_lost = Inr db2
          \<and> status_of 1 db2 = Some BetStatus.LOST
          \<and> map s_net_cents (settlements db2)
              = [PyInt (- 6000), PyInt (- 4000), PyInt (- 6000), PyInt (- 4000)])"
proof -
  have s: "settle_bet 1 [2 \<mapsto> ''lost''] 5 db0 = Inr db_lost"
    by (simp add: settle_bet_def business_rules_def update_leg_def lost_settlements_def
        db0_def db_lost_def)
  have st: "status_of 1 db_lost = Some BetStatus.LOST"
    by (simp add: status_of_def db_lost_def db0_def)
  obtain db2 where r: "settle_bet 1 Map.empty 6 db_lost = Inr db2"
      "status_of 1 db2 = status_of 1 db_lost"
      "settlements db2 = settlements db_lost
          @ map (\<lambda>s. s\<lparr>s_ts := 6\<rparr>) (drop (length (settlements db0)) (settlements db_lost))"
    using settle_bet_again[OF s, of 6] by blast
  have "map s_net_cents (settlements db2)
              = [PyInt (- 6000), PyInt (- 4000), PyInt (- 6000), PyInt (- 4000)]"
    by (simp add: r(3) db_lost_def db0_def)
  then have "\<exists>db2. settle_bet 1 Map.empty 6 db_lost = Inr db2
          \<and> status_of 1 db2 = Some BetStatus.LOST
          \<and> map s_net_cents (settlements db2)
              = [PyInt (- 6000), PyInt (- 4000), PyInt (- 6000), PyInt (- 4000)]"
    using r(1,2) st by simp
  with s st show ?thesis by (intro conjI)
qed

text \<open>
  The claim C3 as stated fails: a bet settled as LOST with two Settlement rows has four
  after a second invocation, and becomes WON when the lost leg is resubmitted as won.
\<close>

theorem settle_bet_reentry_counterexample:
  "settle_bet 1 [2 \<mapsto> ''lost''] 5 db0 = Inr db_lost
   \<and> status_of 1 db_lost = Some BetStatus.LOST
   \<and> length (settlements db_lost) = 2
   \<and> map_sum id (\<lambda>db'. (status_of 1 db', length (settlements db')))
         (settle_bet 1 Map.empty 6 db_lost) = Inr (Some BetStatus.LOST, 4)
   \<and> map_sum id (status_of 1) (settle_bet 1 [1 \<mapsto> ''won'', 2 \<mapsto> ''won''] 7 db_lost)
       = Inr (Some BetStatus.WON)"
  by code_simp

section \<open>The odds functions\<close>

lemma fl_of_int_pos:
  assumes "0 < n" "n < 2 ^ 53"
  shows "fl (of_int n) = of_int n"
proof -
  define x :: rat where "x = of_int n"
  have xpos: "0 < x" using assms(1) by (simp add: x_def)
  define e where "e = float_exp x"
  have b: "2 powi e \<le> x" using float_exp_bounds[OF xpos] by (simp add: e_def)
  have "x < of_int (2 ^ 53)" unfolding x_def using assms(2) by (simp only: of_int_less_iff)
  then have "x < 2 powi 53" by (simp add: power_int_def)
  with b have lt: "(2::rat) powi e < 2 powi 53" by linarith
  have e52: "e \<le> 52"
  proof (rule ccontr)
    assume "\<not> e \<le> 52"
    then have "53 \<le> e" by simp
    then have "(2::rat) powi 53 \<le> 2 powi e" by (intro power_int_increasing) simp_all
    with lt show False by linarith
  qed
  define k where "k = nat (52 - e)"
  have ulp: "(2::rat) powi (e - 52) = inverse (2 ^ k)"
  proof -
    have "e - 52 = - (52 - e)" by simp
    then have "(2::rat) powi (e - 52) = inverse (2 powi (52 - e))"
      by (simp only: power_int_minus)
    also have "(2::rat) powi (52 - e) = 2 ^ k" using e52 by (simp add: two_powi_nat k_def)
    finally show ?thesis .
  qed
  have q: "\<bar>x\<bar> / 2 powi (e - 52) = of_int (n * 2 ^ k)"
    using xpos by (simp add: ulp x_def divide_inverse)
  have m: "py_round (\<bar>x\<bar> / 2 powi (e - 52)) = n * 2 ^ k"
    by (simp only: q py_round_of_int)
  have "fl x = sgn x * of_int (py_round (\<bar>x\<bar> / 2 powi (e - 52))) * 2 powi (e - 52)"
    using xpos by (simp add: fl_def Let_def e_def)
  also have "\<dots> = sgn x * of_int (n * 2 ^ k) * 2 powi (e - 52)"
    by (simp only: m)
  also have "\<dots> = of_int (n * 2 ^ k) * inverse (2 ^ k)"
    using xpos by (simp add: ulp)
  also have "\<dots> = x" by (simp add: x_def)
  finally show ?thesis by (simp add: x_def)
qed

lemma float_of_int_exact:
  assumes "\<bar>n\<bar> < 2 ^ 53"
  shows "float_of_int n = of_int n"
proof -
  consider "n = 0" | "0 < n" | "n < 0" by linarith
  then show ?thesis
  proof cases
    case 1 then show ?thesis by (simp add: float_of_int_def fl_def)
  next
    case 2 then show ?thesis using assms fl_of_int_pos[of n] by (simp add: float_of_int_def)
  next
    case 3
    then have "fl (of_int (- n)) = of_int (- n)" using assms by (intro fl_of_int_pos) simp_all
    then show ?thesis by (simp add: float_of_int_def fl_minus)
  qed
qed

lemma py_round_tie_even:
  "\<bar>of_int (py_round x) - x\<bar> = 1 / 2 \<Longrightarrow> even (py_round x)"
proof -
  assume a: "\<bar>of_int (py_round x) - x\<bar> = 1 / 2"
  have f: "of_int \<lfloor>x\<rfloor> \<le> x" "x < of_int \<lfloor>x\<rfloor> + 1" by linarith+
  show ?thesis
    using a f by (auto simp: py_round_def Let_def split: if_splits)
qed

lemma float_inf_mono:
  assumes "float_inf x" and "0 \<le> x" and "1 \<le> y"
  shows "float_inf (fl (x * y))"
proof -
  have "(2::rat) powi 1024 \<le> x" using assms(1,2) by (simp add: float_inf_iff)
  also have "x \<le> x * y" using assms(2,3) by (simp add: mult_le_cancel_left1)
  finally have "(2::rat) powi 1024 \<le> fl (x * y)" by (rule fl_ge_two_powi)
  then show ?thesis by (simp add: float_inf_iff)
qed

lemma fl_nonneg:
  assumes "0 \<le> x"
  shows "0 \<le> fl x"
proof -
  have "\<bar>fl x - x\<bar> \<le> \<bar>x\<bar> / 2 ^ 53" by (rule fl_rel_error)
  moreover have "\<bar>x\<bar> / 2 ^ 53 \<le> x" using assms by (simp add: field_simps)
  ultimately show ?thesis by linarith
qed

lemma calculate_parlay_payout_overflow:
  "calculate_parlay_payout 4 (2 ^ 1023) = Inl OverflowError"
proof -
  have four: "float_of_int 4 = 4" using float_of_int_exact[of 4] by simp
  have "(2::rat) powi 1024 \<le> 4 * 2 ^ 1023" by simp
  then have "(2::rat) powi 1024 \<le> fl (4 * 2 ^ 1023)" by (rule fl_ge_two_powi)
  then have "float_inf (float_mul (float_of_int 4) (2 ^ 1023))"
    by (simp add: float_inf_iff float_mul_def four)
  moreover have "\<not> float_inf (float_of_int 4)" by (simp add: four float_inf_iff)
  ultimately show ?thesis by (simp add: calculate_parlay_payout_def)
qed

text \<open>
  C2, as the code has it. For a stake of 0 or more and finite decimal odds of at least 1,
  let \<open>p\<close> be the floating-point product of the stake and the odds, as the function
  computes it. When \<open>p\<close> is infinite (the product has left the range of binary64) the
  function raises OverflowError. Otherwise it returns the integer nearest to \<open>p\<close>, and
  an exact half goes to the even integer: 4.5 yields 4 and 16.5 yields 16. For a stake
  below \<open>2^53\<close> cents \<open>p\<close> is the exact product rounded once to binary64.
\<close>

theorem calculate_parlay_payout_half_even:
  assumes "0 \<le> stake_cents" and "1 \<le> decimal_odds" and "\<not> float_inf decimal_odds"
  shows "(float_inf (float_mul (float_of_int stake_cents) decimal_odds)
            \<longrightarrow> calculate_parlay_payout stake_cents decimal_odds = Inl OverflowError)
       \<and> (\<not> float_inf (float_mul (float_of_int stake_cents) decimal_odds)
            \<longrightarrow> (\<exists>r. calculate_parlay_payout stake_cents decimal_odds = Inr r
                  \<and> \<bar>of_int r - float_mul (float_of_int stake_cents) decimal_odds\<bar> \<le> 1 / 2
                  \<and> (\<bar>of_int r - float_mul (float_of_int stake_cents) decimal_odds\<bar> = 1 / 2
                        \<longrightarrow> even r)))
       \<and> (stake_cents < 2 ^ 53
            \<longrightarrow> float_mul (float_of_int stake_cents) decimal_odds
                  = fl (of_int stake_cents * decimal_odds))"
proof -
  define p where "p = float_mul (float_of_int stake_cents) decimal_odds"
  have nonneg: "0 \<le> float_of_int stake_cents"
    using assms(1) by (simp add: float_of_int_def fl_nonneg)
  have big: "float_inf p" if "float_inf (float_of_int stake_cents)"
    unfolding p_def float_mul_def using that nonneg assms(2) by (rule float_inf_mono)
  have over: "calculate_parlay_payout stake_cents decimal_odds = Inl OverflowError"
    if "float_inf p"
    using that assms(3) by (simp add: calculate_parlay_payout_def p_def)
  have fin: "calculate_parlay_payout stake_cents decimal_odds = Inr (py_round p)"
    if "\<not> float_inf p"
    using that big assms(3) by (auto simp: calculate_parlay_payout_def p_def)
  have near: "\<bar>of_int (py_round p) - p\<bar> \<le> 1 / 2" by (rule py_round_error)
  have tie: "\<bar>of_int (py_round p) - p\<bar> = 1 / 2 \<longrightarrow> even (py_round p)"
    using py_round_tie_even by blast
  have exact: "p = fl (of_int stake_cents * decimal_odds)" if "stake_cents < 2 ^ 53"
  proof -
    have "float_of_int stake_cents = of_int stake_cents"
      using assms(1) that by (intro float_of_int_exact) simp
    then show ?thesis by (simp add: p_def float_mul_def)
  qed
  show ?thesis
    unfolding p_def[symmetric] using over fin near tie exact by blast
qed

theorem calculate_parlay_payout_half_even_witness:
  "calculate_parlay_payout 11 (3 / 2) = Inr 16
   \<and> float_mul (float_of_int 11) (3 / 2) = 33 / 2
   \<and> even (16::int)
   \<and> float_inf (float_mul (float_of_int 4) (2 ^ 1023))
   \<and> calculate_parlay_payout 4 (2 ^ 1023) = Inl OverflowError"
proof -
  have p: "float_mul (float_of_int 11) (3 / 2) = 33 / 2" by code_simp
  have c: "calculate_parlay_payout 11 (3 / 2) = Inr 16" by code_simp
  have h: "(0::int) \<le> 11" "(1::rat) \<le> 3 / 2" "\<not> float_inf (3 / 2)"
    by (simp_all add: float_inf_iff)
  have fin: "\<not> float_inf (float_mul (float_of_int 11) (3 / 2))"
    unfolding p by (simp add: float_inf_iff)
  from calculate_parlay_payout_half_even[OF h] fin
  obtain r where r: "calculate_parlay_payout 11 (3 / 2) = Inr r"
      "\<bar>of_int r - float_mul (float_of_int 11) (3 / 2)\<bar> = 1 / 2 \<longrightarrow> even r"
    by blast
  have r16: "r = 16" using r(1) c by simp
  have e: "even (16::int)" using r(2) unfolding r16 p by simp
  have four: "float_of_int 4 = 4" using float_of_int_exact[of 4] by simp
  have "(2::rat) powi 1024 \<le> 4 * 2 ^ 1023" by simp
  then have "(2::rat) powi 1024 \<le> fl (4 * 2 ^ 1023)" by (rule fl_ge_two_powi)
  then have inf: "float_inf (float_mul (float_of_int 4) (2 ^ 1023))"
    by (simp add: float_inf_iff float_mul_def four)
  have h2: "(0::int) \<le> 4" "(1::rat) \<le> 2 ^ 1023" "\<not> float_inf (2 ^ 1023)"
    by (simp_all add: float_inf_iff)
  have o: "calculate_parlay_payout 4 (2 ^ 1023) = Inl OverflowError"
    using calculate_parlay_payout_half_even[OF h2] inf by blast
  from c p e inf o show ?thesis by (intro conjI)
qed

text \<open>
  The claim C2 as stated fails. The product 3 * 1.5 is exactly 4.5, half away from zero
  is 5, and the function returns 4. The product 4 * 2^1023 is beyond binary64, and the
  function raises OverflowError where the claim has it return an integer. And a stake of
  \<open>2^53 + 1\<close> is rounded when it is converted to a float, so that at odds 1.0 the function
  returns \<open>2^53\<close>, which is not the integer nearest to the product of stake and odds.
\<close>

theorem calculate_parlay_payout_counterexample:
  "calculate_parlay_payout 3 (3 / 2) = Inr 4
   \<and> float_mul (float_of_int 3) (3 / 2) = 9 / 2
   \<and> round_half_away_from_zero (9 / 2) = 5
   \<and> calculate_parlay_payout 4 (2 ^ 1023) = Inl OverflowError
   \<and> calculate_parlay_payout (2 ^ 53 + 1) 1 = Inr (2 ^ 53)"
proof -
  have "calculate_parlay_payout 3 (3 / 2) = Inr 4" by code_simp
  moreover have "float_mul (float_of_int 3) (3 / 2) = 9 / 2" by code_simp
  moreover have "round_half_away_from_zero (9 / 2) = 5" by code_simp
  moreover have "calculate_parlay_payout (2 ^ 53 + 1) 1 = Inr (2 ^ 53)" by code_simp
  ultimately show ?thesis using calculate_parlay_payout_overflow by (intro conjI)
qed

text \<open>
  C5, as the code has it. Neither conversion validates its argument.
  \<open>american_to_decimal\<close> fails with the division's own ZeroDivisionError exactly when
  the odds are 0, and \<open>decimal_to_american\<close> exactly when the decimal odds are 1.0;
  for every other argument no division by zero occurs.
\<close>

theorem odds_division_by_zero:
  "(american_to_decimal american_odds = Inl ZeroDivisionError \<longleftrightarrow> american_odds = 0)
   \<and> (decimal_to_american decimal_odds = Inl ZeroDivisionError \<longleftrightarrow> decimal_odds = 1)"
proof -
  have a: "american_to_decimal american_odds = Inl ZeroDivisionError \<longleftrightarrow> american_odds = 0"
    by (simp add: american_to_decimal_def int_truediv_def)
  have "fl (decimal_odds - 1) = 0 \<longleftrightarrow> decimal_odds = 1"
    by (simp add: fl_eq_0_iff)
  then have d: "decimal_to_american decimal_odds = Inl ZeroDivisionError \<longleftrightarrow> decimal_odds = 1"
    by (auto simp: decimal_to_american_def float_truediv_def float_sub_def)
  from a d show ?thesis by simp
qed

text \<open>
  The claim C5 as stated fails: on 0 and on 1.0 the functions do divide by zero, and what
  the caller sees is ZeroDivisionError, not a validation error.
\<close>

theorem odds_zero_division_counterexample:
  "american_to_decimal 0 = Inl ZeroDivisionError
   \<and> decimal_to_american 1 = Inl ZeroDivisionError"
  by code_simp

section \<open>The winning branch\<close>

text \<open>
  C1. On a bet at +150 that wins, with two participants staking one cent each, the bet
  becomes WON, the combined odds are 2.5 and the payout is 5 cents, as the claim says;
  but each Settlement carries the float 1.5, the share 2.5 less the stake, where the
  claim has the integer \<open>round(2.5) - 1 = 1\<close>: the share is never rounded.
\<close>

theorem settle_bet_won_share_not_rounded:
  "map_sum id (\<lambda>db'. (status_of 1 db', map s_net_cents (settlements db')))
          (settle_bet 1 [1 \<mapsto> ''won''] 5 db_even)
       = Inr (Some BetStatus.WON, [PyFloat (3 / 2), PyFloat (3 / 2)])
   \<and> combined_odds 1 (map (update_leg [1 \<mapsto> ''won'']) (bet_legs db_even)) = Inr (5 / 2)
   \<and> calculate_parlay_payout 2 (5 / 2) = Inr 5
   \<and> py_round (float_mul (1 / 2) 5) - 1 = 1"
  by code_simp

lemma won_settlements_rows:
  assumes "total_stake \<noteq> 0"
  shows "\<exists>rows. won_settlements bet_id now total_stake total_payout ps = Inr rows
           \<and> map s_person_id rows = map bp_person_id ps
           \<and> list_all (\<lambda>s. s_bet_id s = bet_id \<and> s_ts s = now) rows"
proof (induction ps)
  case Nil
  show ?case by simp
next
  case (Cons p ps)
  then obtain rows where
    "won_settlements bet_id now total_stake total_payout ps = Inr rows"
    "map s_person_id rows = map bp_person_id ps"
    "list_all (\<lambda>s. s_bet_id s = bet_id \<and> s_ts s = now) rows"
    by blast
  then show ?case using assms by (simp add: int_truediv_def Let_def)
qed

lemma calculate_parlay_payout_even_odds:
  assumes "\<bar>total_stake\<bar> < 2 ^ 53"
  shows "calculate_parlay_payout total_stake 1 = Inr total_stake"
proof -
  have ex: "float_of_int total_stake = of_int total_stake"
    using assms by (rule float_of_int_exact)
  have "fl (of_int total_stake) = of_int total_stake" using ex by (simp add: float_of_int_def)
  then have m: "float_mul (of_int total_stake) 1 = of_int total_stake"
    by (simp add: float_mul_def)
  have "\<bar>of_int total_stake :: rat\<bar> = of_int \<bar>total_stake\<bar>" by simp
  also have "\<dots> < of_int (2 ^ 53)" using assms by (simp only: of_int_less_iff)
  finally have "\<bar>of_int total_stake :: rat\<bar> < 2 ^ 1024" by simp
  then have fin: "\<not> float_inf (of_int total_stake)" by (simp add: float_inf_iff)
  have one: "\<not> float_inf 1" by (simp add: float_inf_iff)
  show ?thesis
    by (simp add: calculate_parlay_payout_def Let_def m ex fin one py_round_of_int)
qed

text \<open>
  C10, as the code has it. On a bet without legs whose participants' stakes add up to a
  total other than 0 and below \<open>2^53\<close> cents, the settlement action succeeds: the
  all-winning branch is taken, the bet becomes WON with \<open>settled_at\<close> the time of the
  action, the combined odds are 1.0, the payout is the total stake, and one Settlement
  is appended for each participant, in order. Nothing is said of the \<open>net_cents\<close> it
  carries.
\<close>

theorem settle_bet_no_legs:
  assumes found: "find (\<lambda>bet. b_id bet = bet_id) (bets db) = Some bet"
    and no_legs: "filter (\<lambda>leg. l_bet_id leg = bet_id) (bet_legs db) = []"
    and sum: "total_stake = sum_list (map bp_stake_cents
                                   (filter (\<lambda>p. bp_bet_id p = bet_id) (bet_participants db)))"
    and nonzero: "total_stake \<noteq> 0"
    and small: "\<bar>total_stake\<bar> < 2 ^ 53"
  shows "\<exists>db' rows. settle_bet bet_id form now db = Inr db'
           \<and> find (\<lambda>bet. b_id bet = bet_id) (bets db')
               = Some (bet\<lparr>b_status := BetStatus.WON, b_settled_at := Some now\<rparr>)
           \<and> combined_odds 1 (map (update_leg form)
                                 (filter (\<lambda>leg. l_bet_id leg = bet_id) (bet_legs db))) = Inr 1
           \<and> calculate_parlay_payout total_stake 1 = Inr total_stake
           \<and> settlements db' = settlements db @ rows
           \<and> map s_person_id rows
               = map bp_person_id (filter (\<lambda>p. bp_bet_id p = bet_id) (bet_participants db))
           \<and> list_all (\<lambda>s. s_bet_id s = bet_id \<and> s_ts s = now) rows"
proof -
  let ?ps = "filter (\<lambda>p. bp_bet_id p = bet_id) (bet_participants db)"
  have pay: "calculate_parlay_payout total_stake 1 = Inr total_stake"
    using small by (rule calculate_parlay_payout_even_odds)
  obtain rows where rows: "won_settlements bet_id now total_stake total_stake ?ps = Inr rows"
      "map s_person_id rows = map bp_person_id ?ps"
      "list_all (\<lambda>s. s_bet_id s = bet_id \<and> s_ts s = now) rows"
    using won_settlements_rows[OF nonzero] by blast
  have br: "business_rules bet_id now [] ?ps = Inr (BetStatus.WON, rows)"
    by (simp add: business_rules_def sum[symmetric] pay rows(1))
  have "settle_bet bet_id form now db
          = Inr (db\<lparr>bet_legs :=
                       map (\<lambda>leg. if l_bet_id leg = bet_id then update_leg form leg else leg)
                           (bet_legs db),
                     bets :=
                       map (\<lambda>b. if b_id b = bet_id
                                 then b\<lparr>b_status := BetStatus.WON, b_settled_at := Some now\<rparr>
                                 else b)
                           (bets db),
                     settlements := settlements db @ rows\<rparr>)"
    using found by (simp add: settle_bet_def no_legs br)
  then show ?thesis
    using found rows(2,3) pay by (simp add: find_update_bet no_legs)
qed

theorem settle_bet_no_legs_witness:
  "find (\<lambda>bet. b_id bet = 1) (bets db_no_legs) = Some (hd (bets db_no_legs))
   \<and> filter (\<lambda>leg. l_bet_id leg = 1) (bet_legs db_no_legs) = []
   \<and> sum_list (map bp_stake_cents
                  (filter (\<lambda>p. bp_bet_id p = 1) (bet_participants db_no_legs))) = 49
   \<and> (\<exists>db'. settle_bet 1 Map.empty 5 db_no_legs = Inr db'
          \<and> status_of 1 db' = Some BetStatus.WON
          \<and> map s_person_id (settlements db') = [1, 2])
   \<and> calculate_parlay_payout 49 1 = Inr 49"
proof -
  have h1: "find (\<lambda>bet. b_id bet = 1) (bets db_no_legs) = Some (hd (bets db_no_legs))"
    by (simp add: db_no_legs_def)
  have h2: "filter (\<lambda>leg. l_bet_id leg = 1) (bet_legs db_no_legs) = []"
    by (simp add: db_no_legs_def)
  have h3: "sum_list (map bp_stake_cents
                  (filter (\<lambda>p. bp_bet_id p = 1) (bet_participants db_no_legs))) = 49"
    by (simp add: db_no_legs_def)
  have h4: "(49::int) \<noteq> 0" "\<bar>49::int\<bar> < 2 ^ 53" by simp_all
  obtain db' rows where r: "settle_bet 1 Map.empty 5 db_no_legs = Inr db'"
      "find (\<lambda>bet. b_id bet = 1) (bets db')
         = Some ((hd (bets db_no_legs))\<lparr>b_status := BetStatus.WON, b_settled_at := Some 5\<rparr>)"
      "calculate_parlay_payout 49 1 = Inr 49"
      "settlements db' = settlements db_no_legs @ rows"
      "map s_person_id rows
         = map bp_person_id (filter (\<lambda>p. bp_bet_id p = 1) (bet_participants db_no_legs))"
    using settle_bet_no_legs[OF h1 h2 h3[symmetric] h4, of Map.empty 5] by blast
  have st: "status_of 1 db' = Some BetStatus.WON" by (simp add: status_of_def r(2))
  have ids: "map s_person_id (settlements db') = [1, 2]"
    by (simp add: r(4) r(5) db_no_legs_def)
  have "\<exists>db'. settle_bet 1 Map.empty 5 db_no_legs = Inr db'
          \<and> status_of 1 db' = Some BetStatus.WON
          \<and> map s_person_id (settlements db') = [1, 2]"
    using r(1) st ids by simp
  with h1 h2 h3 r(3) show ?thesis by (intro conjI)
qed

text \<open>
  The claim C10 as stated fails. On a bet without legs, with participants staking 1 and
  48 cents, the bet becomes WON, the combined odds are 1.0 and the payout is the total
  stake of 49 cents; but the first participant's Settlement carries \<open>(1/49) * 49 - 1\<close>
  computed in floating point, which is \<open>- 2^-53\<close> and not 0. When the only participant
  has a stake of 0 the action fails on the division by the total stake, and no bet
  becomes WON. And a total stake of \<open>2^53 + 1\<close> cents is rounded when it is converted to
  a float, so that the payout at odds 1.0 is \<open>2^53\<close> and not the total stake.
\<close>

theorem settle_bet_no_legs_residue:
  "map_sum id (\<lambda>db'. (status_of 1 db', map s_net_cents (settlements db')))
          (settle_bet 1 Map.empty 5 db_no_legs)
       = Inr (Some BetStatus.WON, [PyFloat (- (1 / 2 ^ 53)), PyFloat 0])
   \<and> combined_odds 1 (bet_legs db_no_legs) = Inr 1
   \<and> calculate_parlay_payout 49 1 = Inr 49
   \<and> settle_bet 1 Map.empty 5
        (db_no_legs\<lparr>bet_participants := [\<lparr>bp_bet_id = 1, bp_person_id = 1, bp_stake_cents = 0\<rparr>]\<rparr>)
       = Inl ZeroDivisionError
   \<and> calculate_parlay_payout (2 ^ 53 + 1) 1 = Inr (2 ^ 53)"
  by code_simp

section \<open>The round trip of the odds conversions\<close>










section \<open>Bet creation\<close>

text \<open>
  C9. A request in which one person enters the stake 0.001 and another the stake 5 is
  accepted: 0.001 is above zero, so the person is taken as a participant, and the stake
  in cents is \<open>int(0.001 * 100) = 0\<close>. The bet is created with a participant whose
  \<open>stake_cents\<close> is 0, which the claim excludes.
\<close>

theorem new_bet_zero_stake_participant:
  "new_bet form_sub_cent 3 db_seeded
     = Inr (Created (db_seeded\<lparr>
         bets := [\<lparr>b_id = 1, b_stake_cents = 500, b_status = BetStatus.OPEN,
                   b_placed_at = 3, b_settled_at = None\<rparr>],
         bet_participants := [\<lparr>bp_bet_id = 1, bp_person_id = 1, bp_stake_cents = 0\<rparr>,
                              \<lparr>bp_bet_id = 1, bp_person_id = 2, bp_stake_cents = 500\<rparr>],
         bet_legs := [\<lparr>l_id = 1, l_bet_id = 1, l_matchup = ''A v B'',
                       l_bet_description = ''A'', l_american_odds = 150,
                       l_result = LegResult.PENDING\<rparr>]\<rparr>))
   \<and> 0 < fl (1 / 1000)
   \<and> py_int (float_mul (fl (1 / 1000)) 100) = 0"
  by code_simp

end
